theory Spec2Isabelle
  imports Main
begin

section \<open>The XRT session cache\<close>

text \<open>
  A shallow embedding of \<^verbatim>\<open>xrt_session.cc\<close>, \<^verbatim>\<open>xrt_session_cache.h\<close> and
  \<^verbatim>\<open>xrt_session_cache.cc\<close>. Objects that the C++ code reaches through pointers live
  in explicit stores: sessions (owned through \<^verbatim>\<open>std::shared_ptr<XrtSession>\<close>), session
  caches (reached through \<^verbatim>\<open>XrtSessionCache*\<close>) and session references (compared by
  address in the move assignment). A null pointer is \<open>None\<close>. Every operation takes the
  program state and returns the state it leaves together with either a value or the
  error that ended it. Sessions are never taken out of their store: the reference counts
  of the shared pointers are not part of the model. The data members, whose names end in
  an underscore in the sources, carry a prime after it (\<open>cache_'\<close> is \<^verbatim>\<open>cache_\<close>).
\<close>

subsection \<open>Errors and observable events\<close>

datatype error =
  ConnectionFailure   \<comment> \<open>the exception thrown when a session cannot be constructed\<close>
| NullPointer         \<comment> \<open>a null or invalid pointer is dereferenced\<close>

text \<open>
  The mutex \<^verbatim>\<open>lock_\<close> of a cache is represented by its history: \<open>Lock c\<close> and
  \<open>Unlock c\<close> are the construction and the destruction of a
  \<^verbatim>\<open>std::lock_guard\<close> on the mutex of the cache at address \<open>c\<close>. The calls of
  \<^verbatim>\<open>CreateSession\<close> and \<^verbatim>\<open>AddSession\<close> are recorded with their arguments.
\<close>

datatype event =
  Lock nat
| Unlock nat
| CreateSessionCall nat string
| AddSessionCall nat "nat option"

subsection \<open>XrtSession\<close>

text \<open>
  Modelled from the spec: the class \<^verbatim>\<open>NodeCache\<close> and its member \<^verbatim>\<open>Rewind\<close> are
  declared in \<^verbatim>\<open>xrt_session.h\<close>, which is not among the sources. The spec describes the
  node cache as a cache of computation-graph nodes that reset invalidates, so that it is
  treated as empty while its storage is retained for reuse: the nodes stay, and the
  position up to which the cache is in use goes back to the start.
\<close>

record 'n NodeCache =
  nodes_' :: "'n list"
  position_' :: nat

definition Rewind :: "'n NodeCache \<Rightarrow> 'n NodeCache" where
  "Rewind c = c\<lparr>position_' := 0\<rparr>"

text \<open>
  The members of \<^verbatim>\<open>XrtSession\<close> are those its constructor and \<^verbatim>\<open>Reset\<close> name.
  \<open>'r\<close> stands for \<^verbatim>\<open>tensorflow::Scope\<close> and \<open>'c\<close> for
  \<^verbatim>\<open>tensorflow::ClientSession\<close>, the connection.
\<close>

record ('r, 'c, 'n) XrtSession =
  target_' :: string
  root_' :: 'r
  session_' :: 'c
  node_cache_' :: "(string \<times> 'n NodeCache) list"

record SessionOptions =
  target :: string
  compression_algorithm :: string
  compression_level :: int

text \<open>
  What the code takes from outside these sources, as parameters: the helpers
  \<^verbatim>\<open>sys_util::GetEnvString\<close> and \<^verbatim>\<open>sys_util::GetEnvInt\<close>, which read the process
  environment, and the constructors of TensorFlow's root scope and client session.
  Constructing the client session is the step that can fail.
\<close>

record ('r, 'c) externals =
  GetEnvString :: "string \<Rightarrow> string \<Rightarrow> string"
  GetEnvInt :: "string \<Rightarrow> int \<Rightarrow> int"
  NewRootScope :: 'r
  ClientSession :: "'r \<Rightarrow> SessionOptions \<Rightarrow> error + 'c"

definition XrtSession_ctor ::
  "('r, 'c) externals \<Rightarrow> SessionOptions \<Rightarrow> error + ('r, 'c, 'n) XrtSession" where
  "XrtSession_ctor ext session_options =
     (let root = NewRootScope ext in
      case ClientSession ext root session_options of
        Inl e \<Rightarrow> Inl e
      | Inr cs \<Rightarrow>
          Inr \<lparr>target_' = target session_options, root_' = root,
               XrtSession.session_' = cs, node_cache_' = []\<rparr>)"

text \<open>The loop of \<^verbatim>\<open>XrtSession::Reset\<close> over the entries of \<^verbatim>\<open>node_cache_\<close>.\<close>

fun Reset_loop :: "(string \<times> 'n NodeCache) list \<Rightarrow> (string \<times> 'n NodeCache) list" where
  "Reset_loop [] = []"
| "Reset_loop (name_cache # rest) =
     (fst name_cache, Rewind (snd name_cache)) # Reset_loop rest"

definition Reset :: "('r, 'c, 'n) XrtSession \<Rightarrow> ('r, 'c, 'n) XrtSession" where
  "Reset s = s\<lparr>node_cache_' := Reset_loop (node_cache_' s)\<rparr>"

subsection \<open>The program state\<close>

text \<open>
  \<^verbatim>\<open>session_map_\<close> is a \<^verbatim>\<open>std::map\<close> from target to a \<^verbatim>\<open>std::deque\<close> of shared
  pointers; a deque is a list with its back at the end. \<^verbatim>\<open>AddSession\<close> dereferences
  the pointer it stores, so the deques hold addresses, never null.
\<close>

record XrtSessionCache =
  session_map_' :: "string \<rightharpoonup> nat list"

record XrtSessionRef =
  cache_' :: "nat option"
  session_' :: "nat option"

record ('r, 'c, 'n) state =
  caches :: "nat \<rightharpoonup> XrtSessionCache"
  sessions :: "('r, 'c, 'n) XrtSession list"
  refs :: "nat \<rightharpoonup> XrtSessionRef"
  trace :: "event list"

definition emit :: "event \<Rightarrow> ('r, 'c, 'n) state \<Rightarrow> ('r, 'c, 'n) state" where
  "emit e \<sigma> = \<sigma>\<lparr>trace := trace \<sigma> @ [e]\<rparr>"

text \<open>Sequencing: an error ends the computation with the state reached so far.\<close>

definition then_do ::
  "(error + 'a) \<times> 's \<Rightarrow> ('a \<Rightarrow> 's \<Rightarrow> (error + 'b) \<times> 's) \<Rightarrow> (error + 'b) \<times> 's" where
  "then_do r f = (case r of (Inl e, \<sigma>) \<Rightarrow> (Inl e, \<sigma>) | (Inr x, \<sigma>) \<Rightarrow> f x \<sigma>)"

subsection \<open>XrtSessionCache\<close>

text \<open>The idle sessions of a target; a key that is absent has none.\<close>

definition idle :: "XrtSessionCache \<Rightarrow> string \<Rightarrow> nat list" where
  "idle pool tgt = (case session_map_' pool tgt of None \<Rightarrow> [] | Some q \<Rightarrow> q)"

definition put_queue :: "string \<Rightarrow> nat list \<Rightarrow> XrtSessionCache \<Rightarrow> XrtSessionCache" where
  "put_queue tgt q pool = pool\<lparr>session_map_' := (session_map_' pool)(tgt \<mapsto> q)\<rparr>"

definition put_cache ::
  "nat \<Rightarrow> XrtSessionCache \<Rightarrow> ('r, 'c, 'n) state \<Rightarrow> ('r, 'c, 'n) state" where
  "put_cache c pool \<sigma> = \<sigma>\<lparr>caches := (caches \<sigma>)(c \<mapsto> pool)\<rparr>"

text \<open>
  \<^verbatim>\<open>std::make_shared<XrtSession>(session_options)\<close>: the session is constructed and
  placed at a new address, the next index of the session store.
\<close>

definition make_shared ::
  "('r, 'c) externals \<Rightarrow> SessionOptions \<Rightarrow> ('r, 'c, 'n) state \<Rightarrow>
     (error + nat) \<times> ('r, 'c, 'n) state" where
  "make_shared ext session_options \<sigma> =
     (case XrtSession_ctor ext session_options of
        Inl e \<Rightarrow> (Inl e, \<sigma>)
      | Inr s \<Rightarrow> (Inr (length (sessions \<sigma>)), \<sigma>\<lparr>sessions := sessions \<sigma> @ [s]\<rparr>))"

text \<open>The session options that \<^verbatim>\<open>CreateSession\<close> builds before it constructs the session.\<close>

definition CreateSession_options :: "('r, 'c) externals \<Rightarrow> string \<Rightarrow> SessionOptions" where
  "CreateSession_options ext tgt =
     (let session_options =
            \<lparr>target = tgt, compression_algorithm = [], compression_level = 0\<rparr>;
          compression = GetEnvString ext ''XRT_GRPC_COMPRESSION'' []
      in if compression \<noteq> []
         then session_options
                \<lparr>compression_algorithm := compression,
                 compression_level := GetEnvInt ext ''XRT_GRPC_COMPRESSION_LEVEL'' 3\<rparr>
         else session_options)"

definition CreateSession ::
  "('r, 'c) externals \<Rightarrow> nat \<Rightarrow> string \<Rightarrow> ('r, 'c, 'n) state \<Rightarrow>
     (error + nat) \<times> ('r, 'c, 'n) state" where
  "CreateSession ext this tgt \<sigma> =
     make_shared ext (CreateSession_options ext tgt) (emit (CreateSessionCall this tgt) \<sigma>)"

text \<open>\<^verbatim>\<open>session->Reset()\<close> through a shared pointer.\<close>

definition Reset_at :: "nat \<Rightarrow> ('r, 'c, 'n) state \<Rightarrow> (error + unit) \<times> ('r, 'c, 'n) state" where
  "Reset_at p \<sigma> =
     (if p < length (sessions \<sigma>)
      then (Inr (), \<sigma>\<lparr>sessions := (sessions \<sigma>)[p := Reset (sessions \<sigma> ! p)]\<rparr>)
      else (Inl NullPointer, \<sigma>))"

text \<open>
  \<^verbatim>\<open>GetSession\<close>. The lock guard is constructed first and destroyed when the function
  is left, by its return or by an exception of \<^verbatim>\<open>CreateSession\<close>.
  \<^verbatim>\<open>session_map_[target]\<close> inserts an empty deque under a key that is absent.
\<close>

definition GetSession ::
  "('r, 'c) externals \<Rightarrow> nat \<Rightarrow> string \<Rightarrow> ('r, 'c, 'n) state \<Rightarrow>
     (error + XrtSessionRef) \<times> ('r, 'c, 'n) state" where
  "GetSession ext this tgt \<sigma> =
     (case caches \<sigma> this of
        None \<Rightarrow> (Inl NullPointer, \<sigma>)
      | Some pool \<Rightarrow>
          let \<sigma>1 = emit (Lock this) \<sigma>;
              session_queue = idle pool tgt;
              pool1 = put_queue tgt session_queue pool;
              \<sigma>2 = put_cache this pool1 \<sigma>1
          in if session_queue \<noteq> [] then
               let session = last session_queue;
                   \<sigma>3 = put_cache this (put_queue tgt (butlast session_queue) pool1) \<sigma>2
               in then_do (Reset_at session \<sigma>3)
                    (\<lambda>_ \<sigma>4. (Inr \<lparr>cache_' = Some this, session_' = Some session\<rparr>,
                              emit (Unlock this) \<sigma>4))
             else
               (case CreateSession ext this tgt \<sigma>2 of
                  (Inl e, \<sigma>3) \<Rightarrow> (Inl e, emit (Unlock this) \<sigma>3)
                | (Inr created, \<sigma>3) \<Rightarrow>
                    (Inr \<lparr>cache_' = Some this, session_' = Some created\<rparr>,
                     emit (Unlock this) \<sigma>3)))"

text \<open>
  \<^verbatim>\<open>AddSession\<close>: \<^verbatim>\<open>session->target()\<close> dereferences the pointer, and
  \<^verbatim>\<open>session_map_[...]\<close> inserts the key when it is absent.
\<close>

definition AddSession ::
  "nat \<Rightarrow> nat option \<Rightarrow> ('r, 'c, 'n) state \<Rightarrow> (error + unit) \<times> ('r, 'c, 'n) state" where
  "AddSession this session \<sigma> =
     (let \<sigma>0 = emit (AddSessionCall this session) \<sigma> in
      case caches \<sigma>0 this of
        None \<Rightarrow> (Inl NullPointer, \<sigma>0)
      | Some pool \<Rightarrow>
          let \<sigma>1 = emit (Lock this) \<sigma>0 in
          (case session of
             None \<Rightarrow> (Inl NullPointer, \<sigma>1)
           | Some p \<Rightarrow>
               if p < length (sessions \<sigma>1) then
                 let tgt = target_' (sessions \<sigma>1 ! p);
                     \<sigma>2 = put_cache this (put_queue tgt (idle pool tgt @ [p]) pool) \<sigma>1
                 in (Inr (), emit (Unlock this) \<sigma>2)
               else (Inl NullPointer, \<sigma>1)))"

subsection \<open>XrtSessionRef\<close>

definition set_cache ::
  "nat \<Rightarrow> nat option \<Rightarrow> ('r, 'c, 'n) state \<Rightarrow> ('r, 'c, 'n) state" where
  "set_cache a v \<sigma> =
     (case refs \<sigma> a of
        None \<Rightarrow> \<sigma>
      | Some h \<Rightarrow> \<sigma>\<lparr>refs := (refs \<sigma>)(a \<mapsto> h\<lparr>cache_' := v\<rparr>)\<rparr>)"

definition set_session ::
  "nat \<Rightarrow> nat option \<Rightarrow> ('r, 'c, 'n) state \<Rightarrow> ('r, 'c, 'n) state" where
  "set_session a v \<sigma> =
     (case refs \<sigma> a of
        None \<Rightarrow> \<sigma>
      | Some h \<Rightarrow> \<sigma>\<lparr>refs := (refs \<sigma>)(a \<mapsto> h\<lparr>session_' := v\<rparr>)\<rparr>)"

text \<open>
  \<^verbatim>\<open>Detach\<close>. The argument of \<^verbatim>\<open>AddSession\<close> is move-constructed from
  \<^verbatim>\<open>session_\<close>, which is left null, before the call.
\<close>

definition Detach :: "nat \<Rightarrow> ('r, 'c, 'n) state \<Rightarrow> (error + unit) \<times> ('r, 'c, 'n) state" where
  "Detach this \<sigma> =
     (case refs \<sigma> this of
        None \<Rightarrow> (Inl NullPointer, \<sigma>)
      | Some h \<Rightarrow>
          (case cache_' h of
             None \<Rightarrow> (Inr (), \<sigma>)
           | Some c \<Rightarrow>
               then_do (AddSession c (session_' h) (set_session this None \<sigma>))
                 (\<lambda>_ \<sigma>1. (Inr (), set_cache this None \<sigma>1))))"

text \<open>
  \<^verbatim>\<open>MoveFrom\<close>, statement by statement; each statement reads the store the previous
  one left, so that the model also says what happens when both addresses are the same.
\<close>

definition MoveFrom ::
  "nat \<Rightarrow> nat \<Rightarrow> ('r, 'c, 'n) state \<Rightarrow> (error + unit) \<times> ('r, 'c, 'n) state" where
  "MoveFrom this rhs \<sigma> =
     (case refs \<sigma> rhs of
        None \<Rightarrow> (Inl NullPointer, \<sigma>)
      | Some _ \<Rightarrow>
          then_do (Detach this \<sigma>)
            (\<lambda>_ \<sigma>1.
               let \<sigma>2 = set_cache this (Option.bind (refs \<sigma>1 rhs) cache_') \<sigma>1;
                   \<sigma>3 = set_cache rhs None \<sigma>2;
                   moved = Option.bind (refs \<sigma>3 rhs) session_';
                   \<sigma>4 = set_session rhs None \<sigma>3;
                   \<sigma>5 = set_session this moved \<sigma>4
               in (Inr (), \<sigma>5)))"

text \<open>
  The move constructor: the new object starts from the default member initialisers,
  \<^verbatim>\<open>cache_ = nullptr\<close> and an empty \<^verbatim>\<open>session_\<close>.
\<close>

definition move_ctor ::
  "nat \<Rightarrow> nat \<Rightarrow> ('r, 'c, 'n) state \<Rightarrow> (error + unit) \<times> ('r, 'c, 'n) state" where
  "move_ctor this ref \<sigma> =
     MoveFrom this ref (\<sigma>\<lparr>refs := (refs \<sigma>)(this \<mapsto> \<lparr>cache_' = None, session_' = None\<rparr>)\<rparr>)"

text \<open>The destructor runs \<^verbatim>\<open>Detach\<close>; then the object is gone.\<close>

definition dtor :: "nat \<Rightarrow> ('r, 'c, 'n) state \<Rightarrow> (error + unit) \<times> ('r, 'c, 'n) state" where
  "dtor this \<sigma> =
     then_do (Detach this \<sigma>) (\<lambda>_ \<sigma>1. (Inr (), \<sigma>1\<lparr>refs := (refs \<sigma>1)(this := None)\<rparr>))"

text \<open>The move assignment \<^verbatim>\<open>operator=\<close>, with its test \<^verbatim>\<open>&rhs != this\<close>.\<close>

definition move_assign ::
  "nat \<Rightarrow> nat \<Rightarrow> ('r, 'c, 'n) state \<Rightarrow> (error + unit) \<times> ('r, 'c, 'n) state" where
  "move_assign this rhs \<sigma> = (if rhs \<noteq> this then MoveFrom this rhs \<sigma> else (Inr (), \<sigma>))"

section \<open>Notions the properties are stated with\<close>

text \<open>The number of calls of \<^verbatim>\<open>AddSession\<close> that hand in the session at address \<open>p\<close>.\<close>

definition check_ins :: "nat \<Rightarrow> event list \<Rightarrow> nat" where
  "check_ins p tr =
     length (filter (\<lambda>e. case e of AddSessionCall c s \<Rightarrow> s = Some p | _ \<Rightarrow> False) tr)"

text \<open>
  Whether every \<^verbatim>\<open>CreateSession\<close> call of the cache at \<open>c\<close> in a trace happens
  while the mutex of that cache is free; \<open>held\<close> says whether it is held at the start.
\<close>

fun created_unlocked :: "nat \<Rightarrow> bool \<Rightarrow> event list \<Rightarrow> bool" where
  "created_unlocked c held [] = True"
| "created_unlocked c held (Lock c' # es) = created_unlocked c (if c' = c then True else held) es"
| "created_unlocked c held (Unlock c' # es) = created_unlocked c (if c' = c then False else held) es"
| "created_unlocked c held (CreateSessionCall c' tgt # es) =
     (if c' = c \<and> held then False else created_unlocked c held es)"
| "created_unlocked c held (AddSessionCall c' s # es) = created_unlocked c held es"

text \<open>
  A session reference that owes a return (its cache pointer is set) points to a cache and
  to a session that exist.
\<close>

definition ref_ok :: "('r, 'c, 'n) state \<Rightarrow> XrtSessionRef \<Rightarrow> bool" where
  "ref_ok \<sigma> h =
     (case cache_' h of
        None \<Rightarrow> True
      | Some c \<Rightarrow>
          caches \<sigma> c \<noteq> None \<and>
          (case session_' h of None \<Rightarrow> False | Some p \<Rightarrow> p < length (sessions \<sigma>)))"

text \<open>The node cache of a session is in the state a reset leaves: every entry is rewound.\<close>

definition node_cache_rewound :: "('r, 'c, 'n) XrtSession \<Rightarrow> bool" where
  "node_cache_rewound s = list_all (\<lambda>name_cache. position_' (snd name_cache) = 0) (node_cache_' s)"

text \<open>
  Partition isolation as an invariant of the state: every idle session of every cache
  exists and is filed under its own target.
\<close>

definition partitioned :: "('r, 'c, 'n) state \<Rightarrow> bool" where
  "partitioned \<sigma> =
     (\<forall>c pool tgt p. caches \<sigma> c = Some pool \<longrightarrow> p \<in> set (idle pool tgt) \<longrightarrow>
        p < length (sessions \<sigma>) \<and> target_' (sessions \<sigma> ! p) = tgt)"

section \<open>Example inputs\<close>

text \<open>An environment without compression settings in which every connection succeeds.\<close>

definition ext_up :: "(unit, unit) externals" where
  "ext_up =
     \<lparr>GetEnvString = (\<lambda>name dflt. dflt), GetEnvInt = (\<lambda>name dflt. dflt),
      NewRootScope = (), ClientSession = (\<lambda>root session_options. Inr ())\<rparr>"

text \<open>The same environment with the remote end unreachable.\<close>

definition ext_down :: "(unit, unit) externals" where
  "ext_down =
     \<lparr>GetEnvString = (\<lambda>name dflt. dflt), GetEnvInt = (\<lambda>name dflt. dflt),
      NewRootScope = (), ClientSession = (\<lambda>root session_options. Inl ConnectionFailure)\<rparr>"

text \<open>One cache, at address 0, that has seen no target yet.\<close>

definition fresh_state :: "(unit, unit, unit) state" where
  "fresh_state =
     \<lparr>caches = [0 \<mapsto> \<lparr>session_map_' = Map.empty\<rparr>], sessions = [], refs = Map.empty,
      trace = []\<rparr>"

text \<open>
  One cache at address 0 with no idle session, two sessions for the target
  \<open>''host:1''\<close>, and three session references: the one at address 1 owns session 0, the
  one at address 2 owns session 1, the one at address 3 is detached. The session at
  address 0 has used one cached node.
\<close>

definition busy_state :: "(unit, unit, unit) state" where
  "busy_state =
     \<lparr>caches = [0 \<mapsto> \<lparr>session_map_' = Map.empty\<rparr>],
      sessions =
        [\<lparr>target_' = ''host:1'', root_' = (), XrtSession.session_' = (),
          node_cache_' = [(''op'', \<lparr>nodes_' = [()], position_' = 1\<rparr>)]\<rparr>,
         \<lparr>target_' = ''host:1'', root_' = (), XrtSession.session_' = (), node_cache_' = []\<rparr>],
      refs = [1 \<mapsto> \<lparr>cache_' = Some 0, session_' = Some 0\<rparr>,
              2 \<mapsto> \<lparr>cache_' = Some 0, session_' = Some 1\<rparr>,
              3 \<mapsto> \<lparr>cache_' = None, session_' = None\<rparr>],
      trace = []\<rparr>"

text \<open>
  The same sessions, both idle in the cache at address 0: session 1 was handed in first,
  session 0 last. No session reference exists.
\<close>

definition parked_state :: "(unit, unit, unit) state" where
  "parked_state =
     \<lparr>caches = [0 \<mapsto> \<lparr>session_map_' = [''host:1'' \<mapsto> [1, 0]]\<rparr>],
      sessions =
        [\<lparr>target_' = ''host:1'', root_' = (), XrtSession.session_' = (),
          node_cache_' = [(''op'', \<lparr>nodes_' = [()], position_' = 1\<rparr>)]\<rparr>,
         \<lparr>target_' = ''host:1'', root_' = (), XrtSession.session_' = (), node_cache_' = []\<rparr>],
      refs = Map.empty,
      trace = []\<rparr>"

section \<open>Properties\<close>

lemma Reset_loop_twice: "Reset_loop (Reset_loop xs) = Reset_loop xs"
  by (induction xs) (simp_all add: Rewind_def)

text \<open>
  C8. Resetting a session twice leaves it as resetting it once does, and a reset changes
  neither the target of the session nor its root scope or its client session (the
  connection): only the node cache is rewound.
\<close>

theorem Reset_idempotent:
  "Reset (Reset s) = Reset s \<and>
   target_' (Reset s) = target_' s \<and>
   root_' (Reset s) = root_' s \<and>
   XrtSession.session_' (Reset s) = XrtSession.session_' s"
  by (simp add: Reset_def Reset_loop_twice)

text \<open>
  C10. Move-assigning a session reference to itself changes nothing: the reference keeps
  its session and its cache pointer, and no session is added to any cache (the state,
  and with it the trace of calls, is the one before).
\<close>

theorem self_move_assign_identity:
  "move_assign h h \<sigma> = (Inr (), \<sigma>)"
  by (simp add: move_assign_def)

subsection \<open>What each operation does on well-formed input\<close>

lemma then_do_Inr: "then_do (Inr x, \<sigma>) f = f x \<sigma>"
  by (simp add: then_do_def)

lemma then_do_Inl: "then_do (Inl e, \<sigma>) f = (Inl e, \<sigma>)"
  by (simp add: then_do_def)

lemma AddSession_run:
  assumes "caches \<sigma> c = Some pool" and "p < length (sessions \<sigma>)"
  shows "AddSession c (Some p) \<sigma> =
    (Inr (),
     \<sigma>\<lparr>caches := (caches \<sigma>)(c \<mapsto>
          put_queue (target_' (sessions \<sigma> ! p))
            (idle pool (target_' (sessions \<sigma> ! p)) @ [p]) pool),
       trace := trace \<sigma> @ [AddSessionCall c (Some p), Lock c, Unlock c]\<rparr>)"
  using assms by (simp add: AddSession_def emit_def put_cache_def Let_def)

lemma Detach_owner:
  assumes "refs \<sigma> a = Some \<lparr>cache_' = Some c, session_' = Some p\<rparr>"
    and "caches \<sigma> c = Some pool" and "p < length (sessions \<sigma>)"
  shows "Detach a \<sigma> =
    (Inr (),
     \<sigma>\<lparr>caches := (caches \<sigma>)(c \<mapsto>
          put_queue (target_' (sessions \<sigma> ! p))
            (idle pool (target_' (sessions \<sigma> ! p)) @ [p]) pool),
       refs := (refs \<sigma>)(a \<mapsto> \<lparr>cache_' = None, session_' = None\<rparr>),
       trace := trace \<sigma> @ [AddSessionCall c (Some p), Lock c, Unlock c]\<rparr>)"
  using assms
  by (simp add: Detach_def set_session_def set_cache_def AddSession_run then_do_Inr)

lemma Detach_detached:
  assumes "refs \<sigma> a = Some h" and "cache_' h = None"
  shows "Detach a \<sigma> = (Inr (), \<sigma>)"
  using assms by (simp add: Detach_def)

lemma MoveFrom_owner:
  assumes "a \<noteq> b"
    and "refs \<sigma> a = Some \<lparr>cache_' = ca, session_' = sa\<rparr>"
    and "refs \<sigma> b = Some \<lparr>cache_' = Some c, session_' = Some p\<rparr>"
    and "caches \<sigma> c = Some pool" and "p < length (sessions \<sigma>)"
  shows "MoveFrom b a \<sigma> =
    (Inr (),
     \<sigma>\<lparr>caches := (caches \<sigma>)(c \<mapsto>
          put_queue (target_' (sessions \<sigma> ! p))
            (idle pool (target_' (sessions \<sigma> ! p)) @ [p]) pool),
       refs := (refs \<sigma>)(b \<mapsto> \<lparr>cache_' = ca, session_' = sa\<rparr>,
                           a \<mapsto> \<lparr>cache_' = None, session_' = None\<rparr>),
       trace := trace \<sigma> @ [AddSessionCall c (Some p), Lock c, Unlock c]\<rparr>)"
  using assms
  apply (simp add: MoveFrom_def Detach_owner then_do_Inr set_cache_def set_session_def Let_def)
  apply (auto simp: fun_upd_twist)
  done

lemma MoveFrom_detached:
  assumes "a \<noteq> b"
    and "refs \<sigma> a = Some \<lparr>cache_' = ca, session_' = sa\<rparr>"
    and "refs \<sigma> b = Some \<lparr>cache_' = None, session_' = sb\<rparr>"
  shows "MoveFrom b a \<sigma> =
    (Inr (),
     \<sigma>\<lparr>refs := (refs \<sigma>)(b \<mapsto> \<lparr>cache_' = ca, session_' = sa\<rparr>,
                           a \<mapsto> \<lparr>cache_' = None, session_' = None\<rparr>)\<rparr>)"
  using assms
  apply (simp add: MoveFrom_def Detach_detached then_do_Inr set_cache_def set_session_def Let_def)
  apply (auto simp: fun_upd_twist)
  done

lemma MoveFrom_owner_the:
  assumes "a \<noteq> b"
    and "refs \<sigma> a = Some \<lparr>cache_' = ca, session_' = sa\<rparr>"
    and "refs \<sigma> b = Some \<lparr>cache_' = Some c, session_' = Some p\<rparr>"
    and "caches \<sigma> c \<noteq> None" and "p < length (sessions \<sigma>)"
  shows "MoveFrom b a \<sigma> =
    (Inr (),
     \<sigma>\<lparr>caches := (caches \<sigma>)(c \<mapsto>
          put_queue (target_' (sessions \<sigma> ! p))
            (idle (the (caches \<sigma> c)) (target_' (sessions \<sigma> ! p)) @ [p])
            (the (caches \<sigma> c))),
       refs := (refs \<sigma>)(b \<mapsto> \<lparr>cache_' = ca, session_' = sa\<rparr>,
                           a \<mapsto> \<lparr>cache_' = None, session_' = None\<rparr>),
       trace := trace \<sigma> @ [AddSessionCall c (Some p), Lock c, Unlock c]\<rparr>)"
  using assms by (auto simp: MoveFrom_owner)

lemma move_ctor_run:
  assumes "a \<noteq> b" and "refs \<sigma> a = Some \<lparr>cache_' = ca, session_' = sa\<rparr>"
  shows "move_ctor b a \<sigma> =
    (Inr (), \<sigma>\<lparr>refs := (refs \<sigma>)(b \<mapsto> \<lparr>cache_' = ca, session_' = sa\<rparr>,
                                   a \<mapsto> \<lparr>cache_' = None, session_' = None\<rparr>)\<rparr>)"
  using assms
  by (simp add: move_ctor_def MoveFrom_detached [where sb = None and ca = ca and sa = sa])

lemma dtor_owner:
  assumes "refs \<sigma> a = Some \<lparr>cache_' = Some c, session_' = Some p\<rparr>"
    and "caches \<sigma> c = Some pool" and "p < length (sessions \<sigma>)"
  shows "dtor a \<sigma> =
    (Inr (),
     \<sigma>\<lparr>caches := (caches \<sigma>)(c \<mapsto>
          put_queue (target_' (sessions \<sigma> ! p))
            (idle pool (target_' (sessions \<sigma> ! p)) @ [p]) pool),
       refs := (refs \<sigma>)(a := None),
       trace := trace \<sigma> @ [AddSessionCall c (Some p), Lock c, Unlock c]\<rparr>)"
  using assms by (simp add: dtor_def Detach_owner then_do_Inr)

lemma dtor_owner_the:
  assumes "refs \<sigma> a = Some \<lparr>cache_' = Some c, session_' = Some p\<rparr>"
    and "caches \<sigma> c \<noteq> None" and "p < length (sessions \<sigma>)"
  shows "dtor a \<sigma> =
    (Inr (),
     \<sigma>\<lparr>caches := (caches \<sigma>)(c \<mapsto>
          put_queue (target_' (sessions \<sigma> ! p))
            (idle (the (caches \<sigma> c)) (target_' (sessions \<sigma> ! p)) @ [p])
            (the (caches \<sigma> c))),
       refs := (refs \<sigma>)(a := None),
       trace := trace \<sigma> @ [AddSessionCall c (Some p), Lock c, Unlock c]\<rparr>)"
  using assms by (auto simp: dtor_owner)

lemma dtor_detached:
  assumes "refs \<sigma> a = Some \<lparr>cache_' = None, session_' = s\<rparr>"
  shows "dtor a \<sigma> = (Inr (), \<sigma>\<lparr>refs := (refs \<sigma>)(a := None)\<rparr>)"
  using assms by (simp add: dtor_def Detach_detached then_do_Inr)

lemma idle_put_queue: "idle (put_queue tgt q pool) t = (if t = tgt then q else idle pool t)"
  by (simp add: idle_def put_queue_def)

lemma put_queue_twice: "put_queue tgt q (put_queue tgt q' pool) = put_queue tgt q pool"
  by (simp add: put_queue_def)

lemma GetSession_reuse:
  assumes "caches \<sigma> c = Some pool" and "idle pool tgt \<noteq> []"
    and "last (idle pool tgt) < length (sessions \<sigma>)"
  shows "GetSession ext c tgt \<sigma> =
    (Inr \<lparr>cache_' = Some c, session_' = Some (last (idle pool tgt))\<rparr>,
     \<sigma>\<lparr>caches := (caches \<sigma>)(c \<mapsto> put_queue tgt (butlast (idle pool tgt)) pool),
       sessions := (sessions \<sigma>)
         [last (idle pool tgt) := Reset (sessions \<sigma> ! last (idle pool tgt))],
       trace := trace \<sigma> @ [Lock c, Unlock c]\<rparr>)"
  using assms
  by (simp add: GetSession_def Let_def emit_def put_cache_def Reset_at_def then_do_Inr
      put_queue_twice)

lemma GetSession_create:
  fixes \<sigma> :: "('r, 'c, 'n) state"
  assumes "caches \<sigma> c = Some pool" and "idle pool tgt = []"
    and "XrtSession_ctor ext (CreateSession_options ext tgt) = Inr s"
  shows "GetSession ext c tgt \<sigma> =
    (Inr \<lparr>cache_' = Some c, session_' = Some (length (sessions \<sigma>))\<rparr>,
     \<sigma>\<lparr>caches := (caches \<sigma>)(c \<mapsto> put_queue tgt [] pool),
       sessions := sessions \<sigma> @ [s],
       trace := trace \<sigma> @ [Lock c, CreateSessionCall c tgt, Unlock c]\<rparr>)"
  using assms
  by (simp add: GetSession_def Let_def emit_def put_cache_def CreateSession_def make_shared_def)

lemma GetSession_fail:
  fixes \<sigma> :: "('r, 'c, 'n) state"
  assumes "caches \<sigma> c = Some pool" and "idle pool tgt = []"
    and "XrtSession_ctor ext (CreateSession_options ext tgt)
           = (Inl e :: error + ('r, 'c, 'n) XrtSession)"
  shows "GetSession ext c tgt \<sigma> =
    (Inl e,
     \<sigma>\<lparr>caches := (caches \<sigma>)(c \<mapsto> put_queue tgt [] pool),
       trace := trace \<sigma> @ [Lock c, CreateSessionCall c tgt, Unlock c]\<rparr>)"
  using assms
  by (simp add: GetSession_def Let_def emit_def put_cache_def CreateSession_def make_shared_def)

lemma GetSession_dangling:
  assumes "caches \<sigma> c = Some pool" and "idle pool tgt \<noteq> []"
    and "\<not> last (idle pool tgt) < length (sessions \<sigma>)"
  shows "fst (GetSession ext c tgt \<sigma>) = Inl NullPointer"
  using assms
  by (simp add: GetSession_def Let_def Reset_at_def then_do_Inl put_cache_def emit_def)

lemma XrtSession_ctor_fresh:
  assumes "XrtSession_ctor ext session_options = Inr s"
  shows "target_' s = target session_options" and "node_cache_' s = []"
  using assms by (auto simp: XrtSession_ctor_def Let_def split: sum.splits)

lemma CreateSession_options_target: "target (CreateSession_options ext tgt) = tgt"
  by (simp add: CreateSession_options_def Let_def)

text \<open>
  The session reference that a successful \<^verbatim>\<open>GetSession\<close> returns points to the cache
  and owns a session that exists.
\<close>

lemma GetSession_owner:
  fixes \<sigma> :: "('r, 'c, 'n) state"
  assumes run: "GetSession ext c tgt \<sigma> = (Inr h, \<sigma>')"
  shows "\<exists>p. h = \<lparr>cache_' = Some c, session_' = Some p\<rparr> \<and> p < length (sessions \<sigma>') \<and>
           caches \<sigma>' c \<noteq> None"
proof (cases "caches \<sigma> c")
  case None
  with run show ?thesis
    by (simp add: GetSession_def)
next
  case (Some pool)
  show ?thesis
  proof (cases "idle pool tgt = []")
    case True
    show ?thesis
    proof (cases "XrtSession_ctor ext (CreateSession_options ext tgt)
                    :: error + ('r, 'c, 'n) XrtSession")
      case (Inl e)
      from GetSession_fail [OF Some True this] run show ?thesis
        by simp
    next
      case (Inr s)
      from GetSession_create [OF Some True this] run show ?thesis
        by auto
    qed
  next
    case False
    show ?thesis
    proof (cases "last (idle pool tgt) < length (sessions \<sigma>)")
      case True
      from GetSession_reuse [OF Some False True, of ext] run True show ?thesis
        by auto
    next
      case dangling: False
      from GetSession_dangling [OF Some False dangling, of ext] run show ?thesis
        by simp
    qed
  qed
qed

subsection \<open>Releasing a session reference\<close>

text \<open>
  C7. \<^verbatim>\<open>Detach\<close> is guarded by the cache pointer of the reference. When the pointer is
  null the call changes nothing, and so calls \<^verbatim>\<open>AddSession\<close> for nothing. When the
  pointer is set (and the cache and the session it owns exist), the call makes exactly one
  \<^verbatim>\<open>AddSession\<close> call, which appends the session to the idle sessions of its target,
  and leaves the reference with a null cache pointer and no session; a second
  \<^verbatim>\<open>Detach\<close> then changes nothing.
\<close>

theorem Detach_guarded_idempotent:
  assumes "refs \<sigma> a = Some h"
  shows "(cache_' h = None \<longrightarrow> Detach a \<sigma> = (Inr (), \<sigma>)) \<and>
         (\<forall>c p pool.
            cache_' h = Some c \<and> session_' h = Some p \<and> caches \<sigma> c = Some pool \<and>
            p < length (sessions \<sigma>) \<longrightarrow>
            (\<exists>\<sigma>'. Detach a \<sigma> = (Inr (), \<sigma>') \<and>
               trace \<sigma>' = trace \<sigma> @ [AddSessionCall c (Some p), Lock c, Unlock c] \<and>
               caches \<sigma>' = (caches \<sigma>)(c \<mapsto>
                 put_queue (target_' (sessions \<sigma> ! p))
                   (idle pool (target_' (sessions \<sigma> ! p)) @ [p]) pool) \<and>
               sessions \<sigma>' = sessions \<sigma> \<and>
               refs \<sigma>' = (refs \<sigma>)(a \<mapsto> \<lparr>cache_' = None, session_' = None\<rparr>) \<and>
               Detach a \<sigma>' = (Inr (), \<sigma>')))"
proof (intro conjI allI impI)
  assume "cache_' h = None"
  with assms show "Detach a \<sigma> = (Inr (), \<sigma>)"
    by (rule Detach_detached)
next
  fix c p pool
  assume own: "cache_' h = Some c \<and> session_' h = Some p \<and> caches \<sigma> c = Some pool \<and>
    p < length (sessions \<sigma>)"
  then have h: "h = \<lparr>cache_' = Some c, session_' = Some p\<rparr>"
    by (cases h) simp
  let ?tgt = "target_' (sessions \<sigma> ! p)"
  let ?\<sigma>' = "\<sigma>\<lparr>caches := (caches \<sigma>)(c \<mapsto> put_queue ?tgt (idle pool ?tgt @ [p]) pool),
       refs := (refs \<sigma>)(a \<mapsto> \<lparr>cache_' = None, session_' = None\<rparr>),
       trace := trace \<sigma> @ [AddSessionCall c (Some p), Lock c, Unlock c]\<rparr>"
  have first: "Detach a \<sigma> = (Inr (), ?\<sigma>')"
    using assms own unfolding h by (simp add: Detach_owner)
  have second: "Detach a ?\<sigma>' = (Inr (), ?\<sigma>')"
    by (rule Detach_detached [where h = "\<lparr>cache_' = None, session_' = None\<rparr>"]) simp_all
  show "\<exists>\<sigma>'. Detach a \<sigma> = (Inr (), \<sigma>') \<and>
               trace \<sigma>' = trace \<sigma> @ [AddSessionCall c (Some p), Lock c, Unlock c] \<and>
               caches \<sigma>' = (caches \<sigma>)(c \<mapsto>
                 put_queue (target_' (sessions \<sigma> ! p))
                   (idle pool (target_' (sessions \<sigma> ! p)) @ [p]) pool) \<and>
               sessions \<sigma>' = sessions \<sigma> \<and>
               refs \<sigma>' = (refs \<sigma>)(a \<mapsto> \<lparr>cache_' = None, session_' = None\<rparr>) \<and>
               Detach a \<sigma>' = (Inr (), \<sigma>')"
    using first second by (intro exI [of _ ?\<sigma>']) simp
qed

theorem Detach_guarded_idempotent_witness:
  "refs busy_state 3 = Some \<lparr>cache_' = None, session_' = None\<rparr> \<and>
   Detach 3 busy_state = (Inr (), busy_state) \<and>
   refs busy_state 1 = Some \<lparr>cache_' = Some 0, session_' = Some 0\<rparr> \<and>
   caches busy_state 0 = Some \<lparr>session_map_' = Map.empty\<rparr> \<and>
   0 < length (sessions busy_state) \<and>
   (\<exists>\<sigma>'. Detach 1 busy_state = (Inr (), \<sigma>') \<and>
      trace \<sigma>' = trace busy_state @ [AddSessionCall 0 (Some 0), Lock 0, Unlock 0] \<and>
      refs \<sigma>' = (refs busy_state)(1 \<mapsto> \<lparr>cache_' = None, session_' = None\<rparr>) \<and>
      Detach 1 \<sigma>' = (Inr (), \<sigma>'))"
proof -
  have detached: "refs busy_state 3 = Some \<lparr>cache_' = None, session_' = None\<rparr>"
    by (simp add: busy_state_def)
  have noop: "Detach 3 busy_state = (Inr (), busy_state)"
    using Detach_guarded_idempotent [OF detached] by simp
  have h: "refs busy_state 1 = Some \<lparr>cache_' = Some 0, session_' = Some 0\<rparr>"
    by (simp add: busy_state_def)
  have pool: "caches busy_state 0 = Some \<lparr>session_map_' = Map.empty\<rparr>"
    and len: "0 < length (sessions busy_state)"
    by (simp_all add: busy_state_def)
  have own: "cache_' \<lparr>cache_' = Some 0, session_' = Some 0\<rparr> = Some 0 \<and>
      session_' \<lparr>cache_' = Some 0, session_' = Some 0\<rparr> = Some 0 \<and>
      caches busy_state 0 = Some \<lparr>session_map_' = Map.empty\<rparr> \<and>
      0 < length (sessions busy_state)"
    using pool len by simp
  from Detach_guarded_idempotent [OF h] own
  have "\<exists>\<sigma>'. Detach 1 busy_state = (Inr (), \<sigma>') \<and>
      trace \<sigma>' = trace busy_state @ [AddSessionCall 0 (Some 0), Lock 0, Unlock 0] \<and>
      refs \<sigma>' = (refs busy_state)(1 \<mapsto> \<lparr>cache_' = None, session_' = None\<rparr>) \<and>
      Detach 1 \<sigma>' = (Inr (), \<sigma>')"
    by blast
  with detached noop h pool len show ?thesis
    by blast
qed

subsection \<open>Moving a session reference\<close>

text \<open>
  C9. Move-assigning to a session reference \<open>d\<close> that still owns a session \<open>p1\<close>
  of the cache \<open>c1\<close>, from another reference \<open>s\<close> that owns \<open>p2\<close>, does not drop
  \<open>p1\<close>: the assignment makes exactly one \<^verbatim>\<open>AddSession\<close> call, which appends
  \<open>p1\<close> to the idle sessions of its target in \<open>c1\<close>; afterwards \<open>d\<close> has the cache
  pointer and the session of \<open>s\<close>, and \<open>s\<close> has a null cache pointer and no session.
\<close>

theorem move_assign_returns_old_session:
  assumes "s \<noteq> d"
    and "refs \<sigma> d = Some \<lparr>cache_' = Some c1, session_' = Some p1\<rparr>"
    and "caches \<sigma> c1 = Some pool" and "p1 < length (sessions \<sigma>)"
    and "refs \<sigma> s = Some \<lparr>cache_' = c2, session_' = Some p2\<rparr>"
  shows "\<exists>\<sigma>'. move_assign d s \<sigma> = (Inr (), \<sigma>') \<and>
           trace \<sigma>' = trace \<sigma> @ [AddSessionCall c1 (Some p1), Lock c1, Unlock c1] \<and>
           caches \<sigma>' = (caches \<sigma>)(c1 \<mapsto>
             put_queue (target_' (sessions \<sigma> ! p1))
               (idle pool (target_' (sessions \<sigma> ! p1)) @ [p1]) pool) \<and>
           sessions \<sigma>' = sessions \<sigma> \<and>
           refs \<sigma>' = (refs \<sigma>)(d \<mapsto> \<lparr>cache_' = c2, session_' = Some p2\<rparr>,
                                  s \<mapsto> \<lparr>cache_' = None, session_' = None\<rparr>)"
  using assms by (simp add: move_assign_def MoveFrom_owner)

theorem move_assign_returns_old_session_witness:
  "(1::nat) \<noteq> 2 \<and>
   refs busy_state 2 = Some \<lparr>cache_' = Some 0, session_' = Some 1\<rparr> \<and>
   caches busy_state 0 = Some \<lparr>session_map_' = Map.empty\<rparr> \<and>
   1 < length (sessions busy_state) \<and>
   refs busy_state 1 = Some \<lparr>cache_' = Some 0, session_' = Some 0\<rparr> \<and>
   (\<exists>\<sigma>'. move_assign 2 1 busy_state = (Inr (), \<sigma>') \<and>
      trace \<sigma>' = trace busy_state @ [AddSessionCall 0 (Some 1), Lock 0, Unlock 0] \<and>
      caches \<sigma>' = (caches busy_state)(0 \<mapsto>
        put_queue (target_' (sessions busy_state ! 1))
          (idle \<lparr>session_map_' = Map.empty\<rparr> (target_' (sessions busy_state ! 1)) @ [1])
          \<lparr>session_map_' = Map.empty\<rparr>) \<and>
      sessions \<sigma>' = sessions busy_state \<and>
      refs \<sigma>' = (refs busy_state)(2 \<mapsto> \<lparr>cache_' = Some 0, session_' = Some 0\<rparr>,
                                   1 \<mapsto> \<lparr>cache_' = None, session_' = None\<rparr>))"
proof -
  have ne: "(1::nat) \<noteq> 2"
    by simp
  have d: "refs busy_state 2 = Some \<lparr>cache_' = Some 0, session_' = Some 1\<rparr>"
    and pool: "caches busy_state 0 = Some \<lparr>session_map_' = Map.empty\<rparr>"
    and len: "1 < length (sessions busy_state)"
    and s: "refs busy_state 1 = Some \<lparr>cache_' = Some 0, session_' = Some 0\<rparr>"
    by (simp_all add: busy_state_def)
  from move_assign_returns_old_session [OF ne d pool len s] ne d pool len s
  show ?thesis
    by blast
qed

text \<open>
  C3. A session reference at \<open>a\<close> owns the session \<open>p\<close> of the cache \<open>c\<close>, as the
  references that \<^verbatim>\<open>GetSession\<close> returns do (lemma \<open>GetSession_owner\<close>). It is moved
  to \<open>b\<close>, by the move constructor into new storage or by a move assignment to a
  reference that does not hold \<open>p\<close>, and then both references are destroyed, in either
  order. Every step succeeds, and over the whole run \<^verbatim>\<open>AddSession\<close> is called for
  \<open>p\<close> exactly once.
\<close>

theorem moved_handle_single_check_in:
  assumes "a \<noteq> b"
    and "refs \<sigma> a = Some \<lparr>cache_' = Some c, session_' = Some p\<rparr>"
    and "caches \<sigma> c = Some pool" and "p < length (sessions \<sigma>)"
  shows "(refs \<sigma> b = None \<longrightarrow>
           (\<exists>\<sigma>'. then_do (move_ctor b a \<sigma>) (\<lambda>_ \<sigma>1. then_do (dtor b \<sigma>1) (\<lambda>_. dtor a))
                   = (Inr (), \<sigma>') \<and>
                 check_ins p (trace \<sigma>') = check_ins p (trace \<sigma>) + 1) \<and>
           (\<exists>\<sigma>'. then_do (move_ctor b a \<sigma>) (\<lambda>_ \<sigma>1. then_do (dtor a \<sigma>1) (\<lambda>_. dtor b))
                   = (Inr (), \<sigma>') \<and>
                 check_ins p (trace \<sigma>') = check_ins p (trace \<sigma>) + 1)) \<and>
         (\<forall>dst. refs \<sigma> b = Some dst \<and> ref_ok \<sigma> dst \<and> session_' dst \<noteq> Some p \<longrightarrow>
           (\<exists>\<sigma>'. then_do (move_assign b a \<sigma>) (\<lambda>_ \<sigma>1. then_do (dtor b \<sigma>1) (\<lambda>_. dtor a))
                   = (Inr (), \<sigma>') \<and>
                 check_ins p (trace \<sigma>') = check_ins p (trace \<sigma>) + 1) \<and>
           (\<exists>\<sigma>'. then_do (move_assign b a \<sigma>) (\<lambda>_ \<sigma>1. then_do (dtor a \<sigma>1) (\<lambda>_. dtor b))
                   = (Inr (), \<sigma>') \<and>
                 check_ins p (trace \<sigma>') = check_ins p (trace \<sigma>) + 1))"
proof (intro conjI allI impI)
  have pool: "caches \<sigma> c \<noteq> None"
    using assms by simp
  note run = move_ctor_run then_do_Inr dtor_owner_the dtor_detached check_ins_def
  show "\<exists>\<sigma>'. then_do (move_ctor b a \<sigma>) (\<lambda>_ \<sigma>1. then_do (dtor b \<sigma>1) (\<lambda>_. dtor a))
                = (Inr (), \<sigma>') \<and>
              check_ins p (trace \<sigma>') = check_ins p (trace \<sigma>) + 1"
    using assms(1,2,4) pool by (simp add: run)
  show "\<exists>\<sigma>'. then_do (move_ctor b a \<sigma>) (\<lambda>_ \<sigma>1. then_do (dtor a \<sigma>1) (\<lambda>_. dtor b))
                = (Inr (), \<sigma>') \<and>
              check_ins p (trace \<sigma>') = check_ins p (trace \<sigma>) + 1"
    using assms(1,2,4) pool by (simp add: run)
next
  fix dst
  assume dst: "refs \<sigma> b = Some dst \<and> ref_ok \<sigma> dst \<and> session_' dst \<noteq> Some p"
  have pool: "caches \<sigma> c \<noteq> None"
    using assms by simp
  obtain cd sd where shape: "dst = \<lparr>cache_' = cd, session_' = sd\<rparr>"
    by (cases dst) simp
  note run = move_assign_def MoveFrom_detached MoveFrom_owner_the then_do_Inr
    dtor_owner_the dtor_detached check_ins_def
  have "(\<exists>\<sigma>'. then_do (move_assign b a \<sigma>) (\<lambda>_ \<sigma>1. then_do (dtor b \<sigma>1) (\<lambda>_. dtor a))
                  = (Inr (), \<sigma>') \<and>
                check_ins p (trace \<sigma>') = check_ins p (trace \<sigma>) + 1) \<and>
        (\<exists>\<sigma>'. then_do (move_assign b a \<sigma>) (\<lambda>_ \<sigma>1. then_do (dtor a \<sigma>1) (\<lambda>_. dtor b))
                  = (Inr (), \<sigma>') \<and>
                check_ins p (trace \<sigma>') = check_ins p (trace \<sigma>) + 1)"
  proof (cases cd)
    case None
    with assms(1,2,4) pool dst shape show ?thesis
      by (simp add: run)
  next
    case (Some c')
    with dst shape obtain p' where "sd = Some p'" and "p' < length (sessions \<sigma>)"
      and "caches \<sigma> c' \<noteq> None" and "p' \<noteq> p"
      by (auto simp: ref_ok_def split: option.splits)
    with Some assms(1,2,4) pool dst shape show ?thesis
      by (simp add: run)
  qed
  then show "\<exists>\<sigma>'. then_do (move_assign b a \<sigma>) (\<lambda>_ \<sigma>1. then_do (dtor b \<sigma>1) (\<lambda>_. dtor a))
                  = (Inr (), \<sigma>') \<and>
                check_ins p (trace \<sigma>') = check_ins p (trace \<sigma>) + 1"
    and "\<exists>\<sigma>'. then_do (move_assign b a \<sigma>) (\<lambda>_ \<sigma>1. then_do (dtor a \<sigma>1) (\<lambda>_. dtor b))
                  = (Inr (), \<sigma>') \<and>
                check_ins p (trace \<sigma>') = check_ins p (trace \<sigma>) + 1"
    by blast+
qed

theorem moved_handle_single_check_in_witness:
  "(1::nat) \<noteq> 5 \<and> (1::nat) \<noteq> 2 \<and>
   refs busy_state 1 = Some \<lparr>cache_' = Some 0, session_' = Some 0\<rparr> \<and>
   caches busy_state 0 = Some \<lparr>session_map_' = Map.empty\<rparr> \<and>
   0 < length (sessions busy_state) \<and>
   refs busy_state 5 = None \<and>
   (\<exists>\<sigma>'. then_do (move_ctor 5 1 busy_state) (\<lambda>_ \<sigma>1. then_do (dtor 5 \<sigma>1) (\<lambda>_. dtor 1))
           = (Inr (), \<sigma>') \<and>
         check_ins 0 (trace \<sigma>') = check_ins 0 (trace busy_state) + 1) \<and>
   refs busy_state 2 = Some \<lparr>cache_' = Some 0, session_' = Some 1\<rparr> \<and>
   ref_ok busy_state \<lparr>cache_' = Some 0, session_' = Some 1\<rparr> \<and>
   session_' \<lparr>cache_' = Some 0, session_' = Some 1\<rparr> \<noteq> Some 0 \<and>
   (\<exists>\<sigma>'. then_do (move_assign 2 1 busy_state) (\<lambda>_ \<sigma>1. then_do (dtor 2 \<sigma>1) (\<lambda>_. dtor 1))
           = (Inr (), \<sigma>') \<and>
         check_ins 0 (trace \<sigma>') = check_ins 0 (trace busy_state) + 1)"
proof -
  have ne5: "(1::nat) \<noteq> 5" and ne2: "(1::nat) \<noteq> 2"
    by simp_all
  have src: "refs busy_state 1 = Some \<lparr>cache_' = Some 0, session_' = Some 0\<rparr>"
    and pool: "caches busy_state 0 = Some \<lparr>session_map_' = Map.empty\<rparr>"
    and len: "0 < length (sessions busy_state)"
    and new: "refs busy_state 5 = None"
    and dst: "refs busy_state 2 = Some \<lparr>cache_' = Some 0, session_' = Some 1\<rparr>"
    and ok: "ref_ok busy_state \<lparr>cache_' = Some 0, session_' = Some 1\<rparr>"
    and other: "session_' \<lparr>cache_' = Some 0, session_' = Some 1\<rparr> \<noteq> Some 0"
    by (simp_all add: busy_state_def ref_ok_def)
  have ctor: "\<exists>\<sigma>'. then_do (move_ctor 5 1 busy_state)
                       (\<lambda>_ \<sigma>1. then_do (dtor 5 \<sigma>1) (\<lambda>_. dtor 1)) = (Inr (), \<sigma>') \<and>
                    check_ins 0 (trace \<sigma>') = check_ins 0 (trace busy_state) + 1"
    using moved_handle_single_check_in [OF ne5 src pool len] new by blast
  have assign: "\<exists>\<sigma>'. then_do (move_assign 2 1 busy_state)
                       (\<lambda>_ \<sigma>1. then_do (dtor 2 \<sigma>1) (\<lambda>_. dtor 1)) = (Inr (), \<sigma>') \<and>
                    check_ins 0 (trace \<sigma>') = check_ins 0 (trace busy_state) + 1"
    using moved_handle_single_check_in [OF ne2 src pool len] dst ok other by blast
  from ne5 ne2 src pool len new ctor dst ok other assign show ?thesis
    by blast
qed

subsection \<open>Checking a session out: the lock and a failed creation\<close>

text \<open>
  The predicate \<open>created_unlocked\<close> tells the two orders apart: a creation after the lock
  is released passes, a creation between the lock and its release does not.
\<close>

lemma created_unlocked_examples:
  "created_unlocked c False [Lock c, Unlock c, CreateSessionCall c tgt]"
  "\<not> created_unlocked c False [Lock c, CreateSessionCall c tgt, Unlock c]"
  by simp_all

text \<open>
  C1, as the spec states it, fails. On a cache that has no idle session for
  \<open>''host:1''\<close>, \<^verbatim>\<open>GetSession\<close> takes the creation path, and the
  \<^verbatim>\<open>CreateSession\<close> call falls between the construction of the lock guard and its
  destruction: the session is not created with the lock free.
\<close>

theorem creation_outside_lock_counterexample:
  "caches fresh_state 0 = Some \<lparr>session_map_' = Map.empty\<rparr> \<and>
   idle \<lparr>session_map_' = Map.empty\<rparr> ''host:1'' = [] \<and>
   trace (snd (GetSession ext_up 0 ''host:1'' fresh_state)) =
     [Lock 0, CreateSessionCall 0 ''host:1'', Unlock 0] \<and>
   \<not> created_unlocked 0 False (trace (snd (GetSession ext_up 0 ''host:1'' fresh_state)))"
  by (simp add: fresh_state_def ext_up_def idle_def GetSession_def Let_def emit_def put_cache_def
      CreateSession_def make_shared_def XrtSession_ctor_def)

text \<open>
  C1, amended. The lock guard of \<^verbatim>\<open>GetSession\<close> spans the whole call. Whenever the
  cache has no idle session for the target, the call adds exactly three events to the
  trace, whether the creation succeeds or fails: the lock is taken, then
  \<^verbatim>\<open>CreateSession\<close> is called, and only then the lock is released. So the session is
  created while the lock of the cache is held.
\<close>

theorem GetSession_creates_under_lock:
  fixes \<sigma> :: "('r, 'c, 'n) state"
  assumes "caches \<sigma> c = Some pool" and "idle pool tgt = []"
  shows "trace (snd (GetSession ext c tgt \<sigma>)) =
           trace \<sigma> @ [Lock c, CreateSessionCall c tgt, Unlock c] \<and>
         \<not> created_unlocked c False
             (drop (length (trace \<sigma>)) (trace (snd (GetSession ext c tgt \<sigma>))))"
proof (cases "XrtSession_ctor ext (CreateSession_options ext tgt)
                :: error + ('r, 'c, 'n) XrtSession")
  case (Inl e)
  from GetSession_fail [OF assms this] show ?thesis
    by simp
next
  case (Inr s)
  from GetSession_create [OF assms this] show ?thesis
    by simp
qed

theorem GetSession_creates_under_lock_witness:
  "caches parked_state 0 = Some \<lparr>session_map_' = [''host:1'' \<mapsto> [1, 0]]\<rparr> \<and>
   idle \<lparr>session_map_' = [''host:1'' \<mapsto> [1, 0]]\<rparr> ''host:2'' = [] \<and>
   trace (snd (GetSession ext_down 0 ''host:2'' parked_state)) =
     trace parked_state @ [Lock 0, CreateSessionCall 0 ''host:2'', Unlock 0] \<and>
   \<not> created_unlocked 0 False
       (drop (length (trace parked_state))
          (trace (snd (GetSession ext_down 0 ''host:2'' parked_state))))"
proof -
  have pool: "caches parked_state 0 = Some \<lparr>session_map_' = [''host:1'' \<mapsto> [1, 0]]\<rparr>"
    by (simp add: parked_state_def)
  have none: "idle \<lparr>session_map_' = [''host:1'' \<mapsto> [1, 0]]\<rparr> ''host:2'' = []"
    by (simp add: idle_def)
  from GetSession_creates_under_lock [OF pool none, of ext_down] pool none show ?thesis
    by blast
qed

text \<open>
  C2. When \<^verbatim>\<open>GetSession\<close> finds no idle session for the target and the creation
  fails, the mapping from targets to idle sessions is the one before the call: every
  target, the requested one too, has exactly the idle sessions it had. In the pool's data
  model a target without an entry is a target without idle sessions, so the empty deque
  that \<^verbatim>\<open>session_map_[target]\<close> leaves under a target that had no entry (the
  equation for \<open>session_map_'\<close>) changes no idle collection. Every other cache, the sessions and the session
  references are unchanged as well.
\<close>

theorem failed_creation_keeps_idle_sessions:
  fixes \<sigma> :: "('r, 'c, 'n) state"
  assumes "caches \<sigma> c = Some pool" and "idle pool tgt = []"
    and "GetSession ext c tgt \<sigma> = (Inl e, \<sigma>')"
  shows "\<exists>pool'. caches \<sigma>' c = Some pool' \<and> idle pool' = idle pool \<and>
           session_map_' pool' = (session_map_' pool)(tgt \<mapsto> []) \<and>
           (\<forall>c'. c' \<noteq> c \<longrightarrow> caches \<sigma>' c' = caches \<sigma> c') \<and>
           sessions \<sigma>' = sessions \<sigma> \<and> refs \<sigma>' = refs \<sigma>"
proof (cases "XrtSession_ctor ext (CreateSession_options ext tgt)
                :: error + ('r, 'c, 'n) XrtSession")
  case (Inl e')
  from GetSession_fail [OF assms(1,2) this] assms(3)
  have "\<sigma>' = \<sigma>\<lparr>caches := (caches \<sigma>)(c \<mapsto> put_queue tgt [] pool),
       trace := trace \<sigma> @ [Lock c, CreateSessionCall c tgt, Unlock c]\<rparr>"
    by simp
  moreover have "idle (put_queue tgt [] pool) = idle pool"
    using assms(2) by (auto simp: idle_put_queue)
  ultimately show ?thesis
    by (simp add: put_queue_def)
next
  case (Inr s)
  from GetSession_create [OF assms(1,2) this] assms(3) show ?thesis
    by simp
qed

theorem failed_creation_keeps_idle_sessions_witness:
  "caches parked_state 0 = Some \<lparr>session_map_' = [''host:1'' \<mapsto> [1, 0]]\<rparr> \<and>
   idle \<lparr>session_map_' = [''host:1'' \<mapsto> [1, 0]]\<rparr> ''host:2'' = [] \<and>
   GetSession ext_down 0 ''host:2'' parked_state =
     (Inl ConnectionFailure, snd (GetSession ext_down 0 ''host:2'' parked_state)) \<and>
   (\<exists>pool'. caches (snd (GetSession ext_down 0 ''host:2'' parked_state)) 0 = Some pool' \<and>
      idle pool' = idle \<lparr>session_map_' = [''host:1'' \<mapsto> [1, 0]]\<rparr> \<and>
      session_map_' pool' = [''host:1'' \<mapsto> [1, 0], ''host:2'' \<mapsto> []] \<and>
      sessions (snd (GetSession ext_down 0 ''host:2'' parked_state)) = sessions parked_state)"
proof -
  have pool: "caches parked_state 0 = Some \<lparr>session_map_' = [''host:1'' \<mapsto> [1, 0]]\<rparr>"
    by (simp add: parked_state_def)
  have none: "idle \<lparr>session_map_' = [''host:1'' \<mapsto> [1, 0]]\<rparr> ''host:2'' = []"
    by (simp add: idle_def)
  have ctor: "XrtSession_ctor ext_down (CreateSession_options ext_down ''host:2'')
                = (Inl ConnectionFailure :: error + (unit, unit, unit) XrtSession)"
    by (simp add: XrtSession_ctor_def ext_down_def)
  have run: "GetSession ext_down 0 ''host:2'' parked_state =
     (Inl ConnectionFailure, snd (GetSession ext_down 0 ''host:2'' parked_state))"
    by (simp add: GetSession_fail [OF pool none ctor])
  from failed_creation_keeps_idle_sessions [OF pool none run]
  have "\<exists>pool'. caches (snd (GetSession ext_down 0 ''host:2'' parked_state)) 0 = Some pool' \<and>
      idle pool' = idle \<lparr>session_map_' = [''host:1'' \<mapsto> [1, 0]]\<rparr> \<and>
      session_map_' pool' = [''host:1'' \<mapsto> [1, 0], ''host:2'' \<mapsto> []] \<and>
      sessions (snd (GetSession ext_down 0 ''host:2'' parked_state)) = sessions parked_state"
    by auto
  with pool none run show ?thesis
    by blast
qed

subsection \<open>Checking a session out: order and reset\<close>

text \<open>
  C4. \<^verbatim>\<open>AddSession\<close> appends at the back of the idle sessions of the target and
  \<^verbatim>\<open>GetSession\<close> removes from the back. After \<open>p1\<close> and then \<open>p2\<close> are handed
  in for the same target, the target has the idle sessions it had, then \<open>p1\<close>, then
  \<open>p2\<close>; the next \<^verbatim>\<open>GetSession\<close> for the target returns \<open>p2\<close> and leaves
  \<open>p1\<close> last, and the one after it returns \<open>p1\<close> and leaves the idle sessions the
  target had at the start.
\<close>

theorem checkout_is_LIFO:
  fixes \<sigma> :: "('r, 'c, 'n) state"
  assumes "caches \<sigma> c = Some pool"
    and "p1 < length (sessions \<sigma>)" and "p2 < length (sessions \<sigma>)"
    and "target_' (sessions \<sigma> ! p1) = tgt" and "target_' (sessions \<sigma> ! p2) = tgt"
  shows "\<exists>\<sigma>1 \<sigma>2 \<sigma>3 \<sigma>4 pool2 pool3 pool4.
      AddSession c (Some p1) \<sigma> = (Inr (), \<sigma>1) \<and>
      AddSession c (Some p2) \<sigma>1 = (Inr (), \<sigma>2) \<and>
      caches \<sigma>2 c = Some pool2 \<and> idle pool2 tgt = idle pool tgt @ [p1, p2] \<and>
      GetSession ext c tgt \<sigma>2 = (Inr \<lparr>cache_' = Some c, session_' = Some p2\<rparr>, \<sigma>3) \<and>
      caches \<sigma>3 c = Some pool3 \<and> idle pool3 tgt = idle pool tgt @ [p1] \<and>
      GetSession ext c tgt \<sigma>3 = (Inr \<lparr>cache_' = Some c, session_' = Some p1\<rparr>, \<sigma>4) \<and>
      caches \<sigma>4 c = Some pool4 \<and> idle pool4 tgt = idle pool tgt"
proof -
  let ?q = "idle pool tgt"
  let ?pool1 = "put_queue tgt (?q @ [p1]) pool"
  let ?\<sigma>1 = "\<sigma>\<lparr>caches := (caches \<sigma>)(c \<mapsto> ?pool1),
       trace := trace \<sigma> @ [AddSessionCall c (Some p1), Lock c, Unlock c]\<rparr>"
  let ?pool2 = "put_queue tgt (?q @ [p1, p2]) pool"
  let ?\<sigma>2 = "?\<sigma>1\<lparr>caches := (caches ?\<sigma>1)(c \<mapsto> ?pool2),
       trace := trace ?\<sigma>1 @ [AddSessionCall c (Some p2), Lock c, Unlock c]\<rparr>"
  let ?pool3 = "put_queue tgt (?q @ [p1]) pool"
  let ?\<sigma>3 = "?\<sigma>2\<lparr>caches := (caches ?\<sigma>2)(c \<mapsto> ?pool3),
       sessions := (sessions ?\<sigma>2)[p2 := Reset (sessions ?\<sigma>2 ! p2)],
       trace := trace ?\<sigma>2 @ [Lock c, Unlock c]\<rparr>"
  let ?pool4 = "put_queue tgt ?q pool"
  let ?\<sigma>4 = "?\<sigma>3\<lparr>caches := (caches ?\<sigma>3)(c \<mapsto> ?pool4),
       sessions := (sessions ?\<sigma>3)[p1 := Reset (sessions ?\<sigma>3 ! p1)],
       trace := trace ?\<sigma>3 @ [Lock c, Unlock c]\<rparr>"
  have s1: "AddSession c (Some p1) \<sigma> = (Inr (), ?\<sigma>1)"
    using assms by (simp add: AddSession_run)
  have s2: "AddSession c (Some p2) ?\<sigma>1 = (Inr (), ?\<sigma>2)"
    using assms
    by (simp add: AddSession_run [where pool = ?pool1] idle_put_queue put_queue_twice)
  have s3: "GetSession ext c tgt ?\<sigma>2 = (Inr \<lparr>cache_' = Some c, session_' = Some p2\<rparr>, ?\<sigma>3)"
    using assms
    by (simp add: GetSession_reuse [where pool = ?pool2] idle_put_queue put_queue_twice
        butlast_append)
  have s4: "GetSession ext c tgt ?\<sigma>3 = (Inr \<lparr>cache_' = Some c, session_' = Some p1\<rparr>, ?\<sigma>4)"
    using assms
    by (simp add: GetSession_reuse [where pool = ?pool3] idle_put_queue put_queue_twice)
  have k2: "caches ?\<sigma>2 c = Some ?pool2" and k3: "caches ?\<sigma>3 c = Some ?pool3"
    and k4: "caches ?\<sigma>4 c = Some ?pool4"
    by simp_all
  have i2: "idle ?pool2 tgt = ?q @ [p1, p2]" and i3: "idle ?pool3 tgt = ?q @ [p1]"
    and i4: "idle ?pool4 tgt = ?q"
    by (simp_all add: idle_put_queue)
  from s1 s2 k2 i2 s3 k3 i3 s4 k4 i4 show ?thesis
    by blast
qed

theorem checkout_is_LIFO_witness:
  "caches busy_state 0 = Some \<lparr>session_map_' = Map.empty\<rparr> \<and>
   0 < length (sessions busy_state) \<and> 1 < length (sessions busy_state) \<and>
   target_' (sessions busy_state ! 0) = ''host:1'' \<and>
   target_' (sessions busy_state ! 1) = ''host:1'' \<and>
   (\<exists>\<sigma>1 \<sigma>2 \<sigma>3 \<sigma>4 pool2 pool3 pool4.
      AddSession 0 (Some 0) busy_state = (Inr (), \<sigma>1) \<and>
      AddSession 0 (Some 1) \<sigma>1 = (Inr (), \<sigma>2) \<and>
      caches \<sigma>2 0 = Some pool2 \<and>
      idle pool2 ''host:1'' = idle \<lparr>session_map_' = Map.empty\<rparr> ''host:1'' @ [0, 1] \<and>
      GetSession ext_up 0 ''host:1'' \<sigma>2 = (Inr \<lparr>cache_' = Some 0, session_' = Some 1\<rparr>, \<sigma>3) \<and>
      caches \<sigma>3 0 = Some pool3 \<and>
      idle pool3 ''host:1'' = idle \<lparr>session_map_' = Map.empty\<rparr> ''host:1'' @ [0] \<and>
      GetSession ext_up 0 ''host:1'' \<sigma>3 = (Inr \<lparr>cache_' = Some 0, session_' = Some 0\<rparr>, \<sigma>4) \<and>
      caches \<sigma>4 0 = Some pool4 \<and>
      idle pool4 ''host:1'' = idle \<lparr>session_map_' = Map.empty\<rparr> ''host:1'')"
proof -
  have pool: "caches busy_state 0 = Some \<lparr>session_map_' = Map.empty\<rparr>"
    and len0: "0 < length (sessions busy_state)" and len1: "1 < length (sessions busy_state)"
    and tgt0: "target_' (sessions busy_state ! 0) = ''host:1''"
    and tgt1: "target_' (sessions busy_state ! 1) = ''host:1''"
    by (simp_all add: busy_state_def)
  from checkout_is_LIFO [OF pool len0 len1 tgt0 tgt1, of ext_up] pool len0 len1 tgt0 tgt1
  show ?thesis
    by blast
qed

lemma Reset_loop_rewound:
  "list_all (\<lambda>name_cache. position_' (snd name_cache) = 0) (Reset_loop xs)"
  by (induction xs) (simp_all add: Rewind_def)

lemma Reset_rewound: "node_cache_rewound (Reset s)"
  by (simp add: node_cache_rewound_def Reset_def Reset_loop_rewound)

lemma Reset_target: "target_' (Reset s) = target_' s"
  by (simp add: Reset_def)

text \<open>
  C5. The session that a successful \<^verbatim>\<open>GetSession\<close> returns has its node cache in the
  state a reset leaves, on both paths. When the target has idle sessions, the session is
  the last of them and \<^verbatim>\<open>Reset\<close> has been applied to it; when it has none, the
  session is a new one, at a new address, whose node cache has no entry.
\<close>

theorem checkout_session_rewound:
  fixes \<sigma> :: "('r, 'c, 'n) state"
  assumes "caches \<sigma> c = Some pool"
    and "GetSession ext c tgt \<sigma> = (Inr h, \<sigma>')"
  shows "\<exists>p. session_' h = Some p \<and> p < length (sessions \<sigma>') \<and>
           node_cache_rewound (sessions \<sigma>' ! p) \<and>
           (if idle pool tgt \<noteq> []
            then p = last (idle pool tgt) \<and> sessions \<sigma>' ! p = Reset (sessions \<sigma> ! p)
            else p = length (sessions \<sigma>) \<and> node_cache_' (sessions \<sigma>' ! p) = [])"
proof (cases "idle pool tgt = []")
  case True
  show ?thesis
  proof (cases "XrtSession_ctor ext (CreateSession_options ext tgt)
                  :: error + ('r, 'c, 'n) XrtSession")
    case (Inl e)
    from GetSession_fail [OF assms(1) True this] assms(2) show ?thesis
      by simp
  next
    case (Inr s)
    from GetSession_create [OF assms(1) True this] assms(2)
    have "h = \<lparr>cache_' = Some c, session_' = Some (length (sessions \<sigma>))\<rparr>"
      and "sessions \<sigma>' = sessions \<sigma> @ [s]"
      by auto
    with True XrtSession_ctor_fresh(2) [OF Inr] show ?thesis
      by (simp add: node_cache_rewound_def)
  qed
next
  case False
  show ?thesis
  proof (cases "last (idle pool tgt) < length (sessions \<sigma>)")
    case True
    from GetSession_reuse [OF assms(1) False True, of ext] assms(2)
    have "h = \<lparr>cache_' = Some c, session_' = Some (last (idle pool tgt))\<rparr>"
      and "sessions \<sigma>' = (sessions \<sigma>)
         [last (idle pool tgt) := Reset (sessions \<sigma> ! last (idle pool tgt))]"
      by auto
    with False True show ?thesis
      by (simp add: Reset_rewound)
  next
    case dangling: False
    from GetSession_dangling [OF assms(1) False dangling, of ext] assms(2) show ?thesis
      by simp
  qed
qed

theorem checkout_session_rewound_witness:
  "caches parked_state 0 = Some \<lparr>session_map_' = [''host:1'' \<mapsto> [1, 0]]\<rparr> \<and>
   \<not> node_cache_rewound (sessions parked_state ! 0) \<and>
   GetSession ext_up 0 ''host:1'' parked_state =
     (Inr \<lparr>cache_' = Some 0, session_' = Some 0\<rparr>,
      snd (GetSession ext_up 0 ''host:1'' parked_state)) \<and>
   (\<exists>p. session_' \<lparr>cache_' = Some 0, session_' = Some 0\<rparr> = Some p \<and>
      p < length (sessions (snd (GetSession ext_up 0 ''host:1'' parked_state))) \<and>
      node_cache_rewound (sessions (snd (GetSession ext_up 0 ''host:1'' parked_state)) ! p))"
proof -
  have pool: "caches parked_state 0 = Some \<lparr>session_map_' = [''host:1'' \<mapsto> [1, 0]]\<rparr>"
    by (simp add: parked_state_def)
  have used: "\<not> node_cache_rewound (sessions parked_state ! 0)"
    by (simp add: parked_state_def node_cache_rewound_def)
  have some: "idle \<lparr>session_map_' = [''host:1'' \<mapsto> [1, 0]]\<rparr> ''host:1'' \<noteq> []"
    and valid: "last (idle \<lparr>session_map_' = [''host:1'' \<mapsto> [1, 0]]\<rparr> ''host:1'')
                  < length (sessions parked_state)"
    and last0: "last (idle \<lparr>session_map_' = [''host:1'' \<mapsto> [1, 0]]\<rparr> ''host:1'') = 0"
    by (simp_all add: idle_def parked_state_def)
  have run: "GetSession ext_up 0 ''host:1'' parked_state =
     (Inr \<lparr>cache_' = Some 0, session_' = Some 0\<rparr>,
      snd (GetSession ext_up 0 ''host:1'' parked_state))"
    using GetSession_reuse [OF pool some valid, of ext_up] unfolding last0 by simp
  from checkout_session_rewound [OF pool run]
  have "\<exists>p. session_' \<lparr>cache_' = Some 0, session_' = Some 0\<rparr> = Some p \<and>
      p < length (sessions (snd (GetSession ext_up 0 ''host:1'' parked_state))) \<and>
      node_cache_rewound (sessions (snd (GetSession ext_up 0 ''host:1'' parked_state)) ! p)"
    by blast
  with pool used run show ?thesis
    by blast
qed

subsection \<open>Partition isolation\<close>

text \<open>
  The invariant depends on the caches and the sessions only, it holds when no cache has an
  idle session, and it survives the changes the operations make: a deque replaced by
  sessions of its target, a session appended to the store, a session reset in place.
\<close>

lemma partitioned_cong:
  assumes "caches \<sigma>' = caches \<sigma>" and "sessions \<sigma>' = sessions \<sigma>"
  shows "partitioned \<sigma>' = partitioned \<sigma>"
  unfolding partitioned_def assms ..

lemma partitioned_trace: "partitioned (\<sigma>\<lparr>trace := tr\<rparr>) = partitioned \<sigma>"
  by (rule partitioned_cong) simp_all

lemma partitioned_refs: "partitioned (\<sigma>\<lparr>refs := r\<rparr>) = partitioned \<sigma>"
  by (rule partitioned_cong) simp_all

lemma partitioned_no_idle:
  assumes "\<forall>c pool tgt. caches \<sigma> c = Some pool \<longrightarrow> idle pool tgt = []"
  shows "partitioned \<sigma>"
  unfolding partitioned_def using assms by fastforce

lemma partitionedD:
  assumes "partitioned \<sigma>" and "caches \<sigma> c = Some pool" and "p \<in> set (idle pool tgt)"
  shows "p < length (sessions \<sigma>)" and "target_' (sessions \<sigma> ! p) = tgt"
  using assms unfolding partitioned_def by blast+

lemma partitioned_put_queue:
  assumes inv: "partitioned \<sigma>" and pool: "caches \<sigma> c = Some pool"
    and q: "\<forall>p \<in> set q. p < length (sessions \<sigma>) \<and> target_' (sessions \<sigma> ! p) = tgt"
  shows "partitioned (\<sigma>\<lparr>caches := (caches \<sigma>)(c \<mapsto> put_queue tgt q pool)\<rparr>)"
  unfolding partitioned_def
proof (intro allI impI)
  fix c2 pool2 t p
  assume c2: "caches (\<sigma>\<lparr>caches := (caches \<sigma>)(c \<mapsto> put_queue tgt q pool)\<rparr>) c2 = Some pool2"
    and p: "p \<in> set (idle pool2 t)"
  have "p < length (sessions \<sigma>) \<and> target_' (sessions \<sigma> ! p) = t"
  proof (cases "c2 = c \<and> t = tgt")
    case True
    with c2 p have "p \<in> set q"
      by (auto simp: idle_put_queue)
    with q True show ?thesis
      by blast
  next
    case False
    with c2 p pool have "\<exists>pool1. caches \<sigma> c2 = Some pool1 \<and> p \<in> set (idle pool1 t)"
      by (cases "c2 = c") (auto simp: idle_put_queue)
    with inv show ?thesis
      by (blast dest: partitionedD)
  qed
  then show "p < length (sessions (\<sigma>\<lparr>caches := (caches \<sigma>)(c \<mapsto> put_queue tgt q pool)\<rparr>)) \<and>
      target_' (sessions (\<sigma>\<lparr>caches := (caches \<sigma>)(c \<mapsto> put_queue tgt q pool)\<rparr>) ! p) = t"
    by simp
qed

lemma partitioned_sessions:
  assumes inv: "partitioned \<sigma>" and len: "length (sessions \<sigma>) \<le> length ss"
    and same: "\<forall>p < length (sessions \<sigma>). target_' (ss ! p) = target_' (sessions \<sigma> ! p)"
  shows "partitioned (\<sigma>\<lparr>sessions := ss\<rparr>)"
  unfolding partitioned_def
proof (intro allI impI)
  fix c pool t p
  assume "caches (\<sigma>\<lparr>sessions := ss\<rparr>) c = Some pool" and "p \<in> set (idle pool t)"
  with inv have "p < length (sessions \<sigma>)" and "target_' (sessions \<sigma> ! p) = t"
    by (auto dest: partitionedD)
  with len same show "p < length (sessions (\<sigma>\<lparr>sessions := ss\<rparr>)) \<and>
      target_' (sessions (\<sigma>\<lparr>sessions := ss\<rparr>) ! p) = t"
    by simp
qed

lemma partitioned_make_shared:
  assumes "partitioned \<sigma>"
  shows "partitioned (\<sigma>\<lparr>sessions := sessions \<sigma> @ [s]\<rparr>)"
  using assms by (rule partitioned_sessions) (simp_all add: nth_append)

lemma nth_Reset_target:
  "q < length ss \<Longrightarrow> target_' (ss[p := Reset (ss ! p)] ! q) = target_' (ss ! q)"
  by (cases "p = q") (simp_all add: Reset_target)

lemma partitioned_Reset:
  assumes "partitioned \<sigma>"
  shows "partitioned (\<sigma>\<lparr>sessions := (sessions \<sigma>)[p := Reset (sessions \<sigma> ! p)]\<rparr>)"
  using assms by (rule partitioned_sessions) (simp_all add: nth_Reset_target)

lemma partitioned_snd_GetSession:
  fixes \<sigma> :: "('r, 'c, 'n) state"
  assumes inv: "partitioned \<sigma>"
  shows "partitioned (snd (GetSession ext c tgt \<sigma>))"
proof (cases "caches \<sigma> c")
  case None
  with inv show ?thesis
    by (simp add: GetSession_def)
next
  case (Some pool)
  show ?thesis
  proof (cases "idle pool tgt = []")
    case True
    have emptied: "partitioned (\<sigma>\<lparr>caches := (caches \<sigma>)(c \<mapsto> put_queue tgt [] pool)\<rparr>)"
      using inv Some by (rule partitioned_put_queue) simp
    show ?thesis
    proof (cases "XrtSession_ctor ext (CreateSession_options ext tgt)
                    :: error + ('r, 'c, 'n) XrtSession")
      case (Inl e)
      from emptied show ?thesis
        by (simp add: GetSession_fail [OF Some True Inl] partitioned_trace)
    next
      case (Inr s)
      from partitioned_make_shared [OF emptied, of s] show ?thesis
        by (simp add: GetSession_create [OF Some True Inr] partitioned_trace)
    qed
  next
    case False
    let ?p = "last (idle pool tgt)"
    have "?p \<in> set (idle pool tgt)"
      using False by simp
    with inv Some have valid: "?p < length (sessions \<sigma>)"
      by (rule partitionedD)
    have "\<forall>p \<in> set (butlast (idle pool tgt)).
            p < length (sessions \<sigma>) \<and> target_' (sessions \<sigma> ! p) = tgt"
      using inv Some by (blast dest: in_set_butlastD partitionedD)
    with inv Some
    have "partitioned (\<sigma>\<lparr>caches := (caches \<sigma>)(c \<mapsto> put_queue tgt (butlast (idle pool tgt)) pool)\<rparr>)"
      by (rule partitioned_put_queue)
    from partitioned_Reset [OF this, of ?p] show ?thesis
      by (simp add: GetSession_reuse [OF Some False valid] partitioned_trace)
  qed
qed

lemma GetSession_target:
  fixes \<sigma> :: "('r, 'c, 'n) state"
  assumes inv: "partitioned \<sigma>" and run: "GetSession ext c tgt \<sigma> = (Inr h, \<sigma>')"
  shows "\<exists>p. session_' h = Some p \<and> p < length (sessions \<sigma>') \<and>
           target_' (sessions \<sigma>' ! p) = tgt"
proof (cases "caches \<sigma> c")
  case None
  with run show ?thesis
    by (simp add: GetSession_def)
next
  case (Some pool)
  show ?thesis
  proof (cases "idle pool tgt = []")
    case True
    show ?thesis
    proof (cases "XrtSession_ctor ext (CreateSession_options ext tgt)
                    :: error + ('r, 'c, 'n) XrtSession")
      case (Inl e)
      from GetSession_fail [OF Some True this] run show ?thesis
        by simp
    next
      case (Inr s)
      have "target_' s = tgt"
        using XrtSession_ctor_fresh(1) [OF Inr] by (simp add: CreateSession_options_target)
      with GetSession_create [OF Some True Inr] run show ?thesis
        by auto
    qed
  next
    case False
    let ?p = "last (idle pool tgt)"
    have "?p \<in> set (idle pool tgt)"
      using False by simp
    with inv Some have valid: "?p < length (sessions \<sigma>)"
      and tgt: "target_' (sessions \<sigma> ! ?p) = tgt"
      by (rule partitionedD)+
    from GetSession_reuse [OF Some False valid, of ext] run valid tgt show ?thesis
      by (auto simp: Reset_target)
  qed
qed

lemma partitioned_snd_AddSession:
  assumes inv: "partitioned \<sigma>"
  shows "partitioned (snd (AddSession c sp \<sigma>))"
proof (cases "caches \<sigma> c")
  case None
  with inv show ?thesis
    by (simp add: AddSession_def Let_def emit_def partitioned_trace)
next
  case (Some pool)
  show ?thesis
  proof (cases sp)
    case None
    with Some inv show ?thesis
      by (simp add: AddSession_def Let_def emit_def partitioned_trace)
  next
    case p: (Some p)
    show ?thesis
    proof (cases "p < length (sessions \<sigma>)")
      case True
      let ?tgt = "target_' (sessions \<sigma> ! p)"
      have "\<forall>q \<in> set (idle pool ?tgt @ [p]).
              q < length (sessions \<sigma>) \<and> target_' (sessions \<sigma> ! q) = ?tgt"
        using inv Some True by (auto dest: partitionedD)
      with inv Some
      have "partitioned (\<sigma>\<lparr>caches := (caches \<sigma>)(c \<mapsto> put_queue ?tgt (idle pool ?tgt @ [p]) pool)\<rparr>)"
        by (rule partitioned_put_queue)
      then show ?thesis
        unfolding p by (simp add: AddSession_run [OF Some True] partitioned_trace)
    next
      case False
      with Some p inv show ?thesis
        by (simp add: AddSession_def Let_def emit_def partitioned_trace)
    qed
  qed
qed

lemma AddSession_files:
  assumes run: "AddSession c sp \<sigma> = (Inr (), \<sigma>')"
  shows "\<exists>p pool pool'. sp = Some p \<and> p < length (sessions \<sigma>) \<and>
           caches \<sigma> c = Some pool \<and> caches \<sigma>' c = Some pool' \<and>
           idle pool' (target_' (sessions \<sigma> ! p)) = idle pool (target_' (sessions \<sigma> ! p)) @ [p] \<and>
           (\<forall>t. t \<noteq> target_' (sessions \<sigma> ! p) \<longrightarrow> idle pool' t = idle pool t)"
proof (cases "caches \<sigma> c")
  case None
  with run show ?thesis
    by (simp add: AddSession_def Let_def emit_def)
next
  case (Some pool)
  show ?thesis
  proof (cases sp)
    case None
    with Some run show ?thesis
      by (simp add: AddSession_def Let_def emit_def)
  next
    case p: (Some p)
    show ?thesis
    proof (cases "p < length (sessions \<sigma>)")
      case True
      from AddSession_run [OF Some True] run p Some True show ?thesis
        by (auto simp: idle_put_queue)
    next
      case False
      with Some p run show ?thesis
        by (simp add: AddSession_def Let_def emit_def)
    qed
  qed
qed

lemma partitioned_set_cache: "partitioned (set_cache a v \<sigma>) = partitioned \<sigma>"
  by (simp add: set_cache_def partitioned_refs split: option.splits)

lemma partitioned_set_session: "partitioned (set_session a v \<sigma>) = partitioned \<sigma>"
  by (simp add: set_session_def partitioned_refs split: option.splits)

lemma partitioned_snd_then_do:
  assumes "partitioned (snd r)" and "\<And>x \<sigma>. partitioned \<sigma> \<Longrightarrow> partitioned (snd (f x \<sigma>))"
  shows "partitioned (snd (then_do r f))"
proof (cases r)
  case (Pair res \<sigma>1)
  with assms show ?thesis
    by (cases res) (simp_all add: then_do_def)
qed

lemma partitioned_snd_Detach:
  assumes "partitioned \<sigma>"
  shows "partitioned (snd (Detach a \<sigma>))"
proof (cases "refs \<sigma> a")
  case None
  with assms show ?thesis
    by (simp add: Detach_def)
next
  case (Some h)
  show ?thesis
  proof (cases "cache_' h")
    case None
    with Some assms show ?thesis
      by (simp add: Detach_def)
  next
    case c: (Some c)
    have "partitioned (snd (then_do (AddSession c (session_' h) (set_session a None \<sigma>))
                              (\<lambda>_ \<sigma>1. (Inr (), set_cache a None \<sigma>1))))"
      using assms
      by (intro partitioned_snd_then_do partitioned_snd_AddSession)
        (simp_all add: partitioned_set_session partitioned_set_cache)
    with Some c show ?thesis
      by (simp add: Detach_def)
  qed
qed

lemma partitioned_snd_MoveFrom:
  assumes "partitioned \<sigma>"
  shows "partitioned (snd (MoveFrom a b \<sigma>))"
proof (cases "refs \<sigma> b")
  case None
  with assms show ?thesis
    by (simp add: MoveFrom_def)
next
  case (Some h)
  have "partitioned (snd (then_do (Detach a \<sigma>)
            (\<lambda>_ \<sigma>1.
               let \<sigma>2 = set_cache a (Option.bind (refs \<sigma>1 b) cache_') \<sigma>1;
                   \<sigma>3 = set_cache b None \<sigma>2;
                   moved = Option.bind (refs \<sigma>3 b) session_';
                   \<sigma>4 = set_session b None \<sigma>3;
                   \<sigma>5 = set_session a moved \<sigma>4
               in (Inr (), \<sigma>5))))"
    using assms
    by (intro partitioned_snd_then_do partitioned_snd_Detach)
      (simp_all add: Let_def partitioned_set_session partitioned_set_cache)
  with Some show ?thesis
    by (simp add: MoveFrom_def)
qed

lemma partitioned_snd_dtor:
  assumes "partitioned \<sigma>"
  shows "partitioned (snd (dtor a \<sigma>))"
  unfolding dtor_def using assms
  by (intro partitioned_snd_then_do partitioned_snd_Detach) (simp_all add: partitioned_refs)

lemma partitioned_snd_move_ctor:
  assumes "partitioned \<sigma>"
  shows "partitioned (snd (move_ctor a b \<sigma>))"
  unfolding move_ctor_def using assms
  by (intro partitioned_snd_MoveFrom) (simp add: partitioned_refs)

lemma partitioned_snd_move_assign:
  assumes "partitioned \<sigma>"
  shows "partitioned (snd (move_assign a b \<sigma>))"
  using assms by (simp add: move_assign_def partitioned_snd_MoveFrom)

text \<open>
  C6. In a state where every idle session is filed under its own target:
  a successful \<^verbatim>\<open>GetSession\<close> for a target returns a session with that target;
  a successful \<^verbatim>\<open>AddSession\<close> appends the session to the idle sessions of the
  session's own target and leaves the idle sessions of every other target as they were;
  and the state that \<^verbatim>\<open>GetSession\<close>, \<^verbatim>\<open>AddSession\<close> and the operations of a
  session reference leave, whether they succeed or fail, again has every idle session
  filed under its own target. The invariant holds at the start, when no cache has an idle
  session (lemma \<open>partitioned_no_idle\<close>).
\<close>

theorem partition_isolation:
  fixes \<sigma> :: "('r, 'c, 'n) state"
  assumes "partitioned \<sigma>"
  shows "(\<forall>ext c tgt h \<sigma>'. GetSession ext c tgt \<sigma> = (Inr h, \<sigma>') \<longrightarrow>
            (\<exists>p. session_' h = Some p \<and> p < length (sessions \<sigma>') \<and>
                 target_' (sessions \<sigma>' ! p) = tgt)) \<and>
         (\<forall>c sp \<sigma>'. AddSession c sp \<sigma> = (Inr (), \<sigma>') \<longrightarrow>
            (\<exists>p pool pool'. sp = Some p \<and> p < length (sessions \<sigma>) \<and>
               caches \<sigma> c = Some pool \<and> caches \<sigma>' c = Some pool' \<and>
               idle pool' (target_' (sessions \<sigma> ! p)) =
                 idle pool (target_' (sessions \<sigma> ! p)) @ [p] \<and>
               (\<forall>t. t \<noteq> target_' (sessions \<sigma> ! p) \<longrightarrow> idle pool' t = idle pool t))) \<and>
         (\<forall>ext c tgt. partitioned (snd (GetSession ext c tgt \<sigma>))) \<and>
         (\<forall>c sp. partitioned (snd (AddSession c sp \<sigma>))) \<and>
         (\<forall>a. partitioned (snd (Detach a \<sigma>)) \<and> partitioned (snd (dtor a \<sigma>))) \<and>
         (\<forall>a b. partitioned (snd (MoveFrom a b \<sigma>)) \<and> partitioned (snd (move_ctor a b \<sigma>)) \<and>
                partitioned (snd (move_assign a b \<sigma>)))"
  using assms
  by (intro conjI allI impI)
    (erule (1) GetSession_target, erule AddSession_files, erule partitioned_snd_GetSession,
      erule partitioned_snd_AddSession, erule partitioned_snd_Detach, erule partitioned_snd_dtor,
      erule partitioned_snd_MoveFrom, erule partitioned_snd_move_ctor,
      erule partitioned_snd_move_assign)

theorem partition_isolation_witness:
  "partitioned parked_state \<and>
   GetSession ext_up 0 ''host:1'' parked_state =
     (Inr \<lparr>cache_' = Some 0, session_' = Some 0\<rparr>,
      snd (GetSession ext_up 0 ''host:1'' parked_state)) \<and>
   (\<exists>p. session_' \<lparr>cache_' = Some 0, session_' = Some 0\<rparr> = Some p \<and>
      p < length (sessions (snd (GetSession ext_up 0 ''host:1'' parked_state))) \<and>
      target_' (sessions (snd (GetSession ext_up 0 ''host:1'' parked_state)) ! p) = ''host:1'') \<and>
   AddSession 0 (Some 1) parked_state = (Inr (), snd (AddSession 0 (Some 1) parked_state)) \<and>
   (\<exists>p pool pool'. Some 1 = Some p \<and> p < length (sessions parked_state) \<and>
      caches parked_state 0 = Some pool \<and>
      caches (snd (AddSession 0 (Some 1) parked_state)) 0 = Some pool' \<and>
      idle pool' (target_' (sessions parked_state ! p)) =
        idle pool (target_' (sessions parked_state ! p)) @ [p]) \<and>
   partitioned (snd (GetSession ext_up 0 ''host:1'' parked_state)) \<and>
   partitioned (snd (AddSession 0 (Some 1) parked_state))"
proof -
  have inv: "partitioned parked_state"
    by (auto simp: partitioned_def parked_state_def idle_def split: if_splits)
  have pool: "caches parked_state 0 = Some \<lparr>session_map_' = [''host:1'' \<mapsto> [1, 0]]\<rparr>"
    by (simp add: parked_state_def)
  have some: "idle \<lparr>session_map_' = [''host:1'' \<mapsto> [1, 0]]\<rparr> ''host:1'' \<noteq> []"
    and valid: "last (idle \<lparr>session_map_' = [''host:1'' \<mapsto> [1, 0]]\<rparr> ''host:1'')
                  < length (sessions parked_state)"
    and last0: "last (idle \<lparr>session_map_' = [''host:1'' \<mapsto> [1, 0]]\<rparr> ''host:1'') = 0"
    and len: "1 < length (sessions parked_state)"
    by (simp_all add: idle_def parked_state_def)
  have get: "GetSession ext_up 0 ''host:1'' parked_state =
     (Inr \<lparr>cache_' = Some 0, session_' = Some 0\<rparr>,
      snd (GetSession ext_up 0 ''host:1'' parked_state))"
    using GetSession_reuse [OF pool some valid, of ext_up] unfolding last0 by simp
  have add: "AddSession 0 (Some 1) parked_state =
     (Inr (), snd (AddSession 0 (Some 1) parked_state))"
    unfolding AddSession_run [OF pool len] by simp
  note all = partition_isolation [OF inv]
  from all get
  have returned: "\<exists>p. session_' \<lparr>cache_' = Some 0, session_' = Some 0\<rparr> = Some p \<and>
      p < length (sessions (snd (GetSession ext_up 0 ''host:1'' parked_state))) \<and>
      target_' (sessions (snd (GetSession ext_up 0 ''host:1'' parked_state)) ! p) = ''host:1''"
    by blast
  from all add
  have filed: "\<exists>p pool pool'. Some 1 = Some p \<and> p < length (sessions parked_state) \<and>
      caches parked_state 0 = Some pool \<and>
      caches (snd (AddSession 0 (Some 1) parked_state)) 0 = Some pool' \<and>
      idle pool' (target_' (sessions parked_state ! p)) =
        idle pool (target_' (sessions parked_state ! p)) @ [p]"
    by blast
  from all have kept: "partitioned (snd (GetSession ext_up 0 ''host:1'' parked_state))"
    and kept': "partitioned (snd (AddSession 0 (Some 1) parked_state))"
    by blast+
  from inv get returned add filed kept kept' show ?thesis
    by blast
qed

end
